theory Spec2Isabelle
  imports Main
begin

section \<open>Data model of the admin layer (monitor/admin.py)\<close>

text \<open>
  The three status constants are imported from \<^verbatim>\<open>monitor.conf\<close>, which is not among the
  sources; they are a parameter of every function that reads them.
\<close>

record conf =
  PENDING_STATUS :: string
  CHALLENGED_STATUS :: string
  APPROVED_STATUS :: string

text \<open>
  A model class, seen through its \<^verbatim>\<open>_meta\<close> (\<^verbatim>\<open>self.opts\<close>): the application label, the
  object name and the attribute name of the primary key (\<^verbatim>\<open>opts.pk.attname\<close>).
\<close>

record model =
  app_label :: string
  object_name :: string
  pk_attname :: string

text \<open>
  An instance of a moderated model: its primary key, the value of its \<^verbatim>\<open>status\<close> attribute
  and, for an instance of a sub-class model, the primary key of its parent instance.
\<close>

record entity =
  pk :: nat
  status :: string
  parent_ptr :: "nat option"

text \<open>
  The dictionary \<^verbatim>\<open>model_from_queue\<close> returns for a model in the moderation queue. Of its
  entries the admin reads \<^verbatim>\<open>can_delete_approved\<close>; the cascade parent is the parent model
  whose instance is moderated together with the instance of this one.
\<close>

record queue_entry =
  can_delete_approved :: bool
  cascade_parent :: "model option"

type_synonym registry = "model \<rightharpoonup> queue_entry"

text \<open>
  Modelled from the spec: \<^verbatim>\<open>monitor.model_from_queue\<close> is missing from the sources; it is the
  registry's \<^verbatim>\<open>lookup(entity_type) -> config | none\<close>.
\<close>

definition model_from_queue :: "registry \<Rightarrow> model \<Rightarrow> queue_entry option" where
  "model_from_queue reg m = reg m"



definition is_approved :: "conf \<Rightarrow> entity \<Rightarrow> bool" where
  "is_approved c i = (status i = APPROVED_STATUS c)"

text \<open>
  The request: its query parameters (a \<^verbatim>\<open>QueryDict\<close>: every key has a list of values) and
  the permission check of its user, \<^verbatim>\<open>request.user.has_perm\<close>.
\<close>

type_synonym querydict = "string \<rightharpoonup> string list"

record request =
  GET :: querydict
  has_perm :: "string \<Rightarrow> bool"

datatype py_error =
  KeyError | TypeError | NotModeratedError | DoesNotExist | MultipleObjectsReturned

text \<open>
  A Python sequence of field names is a tuple or a list. \<^verbatim>\<open>a + b\<close> concatenates two tuples
  or two lists and raises \<^verbatim>\<open>TypeError\<close> for a tuple with a list; \<^verbatim>\<open>list(a)\<close> is the list of
  the items of either.
\<close>

datatype pyseq = Tuple "string list" | List "string list"

fun items :: "pyseq \<Rightarrow> string list" where
  "items (Tuple xs) = xs"
| "items (List xs) = xs"

fun seq_add :: "pyseq \<Rightarrow> pyseq \<Rightarrow> py_error + pyseq" where
  "seq_add (Tuple xs) (Tuple ys) = Inr (Tuple (xs @ ys))"
| "seq_add (List xs) (List ys) = Inr (List (xs @ ys))"
| "seq_add (Tuple xs) (List ys) = Inl TypeError"
| "seq_add (List xs) (Tuple ys) = Inl TypeError"

text \<open>
  The attributes a sub-class of \<^verbatim>\<open>MonitorAdmin\<close> declares, and the admin object that the
  constructors build from them. \<^verbatim>\<open>list_filter\<close> and \<^verbatim>\<open>list_display\<close> are read through
  \<^verbatim>\<open>list(...)\<close> only, so they are kept as the list of their items; \<^verbatim>\<open>readonly_fields\<close> and
  \<^verbatim>\<open>protected_fields\<close> are added with \<^verbatim>\<open>+\<close>, so their kind is kept. \<^verbatim>\<open>MonitorAdmin\<close> itself
  declares \<^verbatim>\<open>protected_fields = ()\<close>, the empty tuple.
\<close>

record admin_class =
  declared_list_filter :: "string list"
  declared_list_display :: "string list"
  declared_readonly_fields :: pyseq
  declared_protected_fields :: pyseq

record monitor_admin =
  admin_model :: model
  admin_site :: string
  list_filter :: "string list"
  list_display :: "string list"
  readonly_fields :: pyseq
  protected_fields :: pyseq

section \<open>MonitorAdmin\<close>

text \<open>
  \<^verbatim>\<open>__init__(model, admin_site)\<close>: the parent class's constructor is a parameter; it gives
  the admin object with its model (\<^verbatim>\<open>self.opts\<close> is the model's \<^verbatim>\<open>_meta\<close>), its site and its
  attributes. Then the primary key's attribute name is put in front of \<^verbatim>\<open>list_filter\<close> and
  \<^verbatim>\<open>'get_status_display'\<close> at the end of \<^verbatim>\<open>list_display\<close>.
\<close>

definition monitor_admin_init ::
  "(admin_class \<Rightarrow> model \<Rightarrow> string \<Rightarrow> monitor_admin) \<Rightarrow> admin_class \<Rightarrow> model \<Rightarrow> string \<Rightarrow>
   monitor_admin" where
  "monitor_admin_init super_init cls m site =
     (let self = super_init cls m site
      in self\<lparr> list_filter := [pk_attname (admin_model self)] @ list_filter self,
               list_display := list_display self @ [''get_status_display''] \<rparr>)"

text \<open>
  A parent constructor that stores the model and the site and leaves every declared
  attribute as it is.
\<close>

definition model_admin_init :: "admin_class \<Rightarrow> model \<Rightarrow> string \<Rightarrow> monitor_admin" where
  "model_admin_init cls m site =
     \<lparr> admin_model = m,
       admin_site = site,
       list_filter = declared_list_filter cls,
       list_display = declared_list_display cls,
       readonly_fields = declared_readonly_fields cls,
       protected_fields = declared_protected_fields cls \<rparr>"

definition is_monitored :: "registry \<Rightarrow> monitor_admin \<Rightarrow> bool" where
  "is_monitored reg self = (model_from_queue reg (admin_model self) \<noteq> None)"

text \<open>
  \<^verbatim>\<open>get_readonly_fields(request, obj = None)\<close>: the conjunction is evaluated from the left, so
  the status of \<^verbatim>\<open>obj\<close> is read only when the model is monitored and \<^verbatim>\<open>obj\<close> is not None.
  The sum \<^verbatim>\<open>self.readonly_fields + self.protected_fields\<close> is Python's \<^verbatim>\<open>+\<close> on the two
  sequences as they were declared.
\<close>

definition get_readonly_fields ::
  "conf \<Rightarrow> registry \<Rightarrow> monitor_admin \<Rightarrow> request \<Rightarrow> entity option \<Rightarrow> py_error + pyseq" where
  "get_readonly_fields c reg self req obj =
     (if is_monitored reg self then
        (case obj of
           None \<Rightarrow> Inr (readonly_fields self)
         | Some ob \<Rightarrow>
             if status ob = APPROVED_STATUS c
             then seq_add (readonly_fields self) (protected_fields self)
             else Inr (readonly_fields self))
      else Inr (readonly_fields self))"

text \<open>
  \<^verbatim>\<open>has_delete_permission(request, obj = None)\<close>. The parent class's method is a parameter; it
  is called with the same request and object when the guard does not hold.
\<close>

definition has_delete_permission ::
  "conf \<Rightarrow> registry \<Rightarrow> (request \<Rightarrow> entity option \<Rightarrow> bool) \<Rightarrow> monitor_admin \<Rightarrow>
   request \<Rightarrow> entity option \<Rightarrow> bool" where
  "has_delete_permission c reg super_has_delete_permission self req obj =
     (case model_from_queue reg (admin_model self) of
        None \<Rightarrow> super_has_delete_permission req obj
      | Some entry \<Rightarrow>
          if \<not> can_delete_approved entry then
            (case obj of
               None \<Rightarrow> super_has_delete_permission req obj
             | Some ob \<Rightarrow>
                 if is_approved c ob then False
                 else super_has_delete_permission req obj)
          else super_has_delete_permission req obj)"

text \<open>
  Modelled from the spec: the queryset methods \<^verbatim>\<open>pending()\<close>, \<^verbatim>\<open>challenged()\<close> and
  \<^verbatim>\<open>approved()\<close> live in \<^verbatim>\<open>monitor/util.py\<close>, which is missing from the sources; they are
  "equivalent to filtering on the status attribute".
\<close>

definition by_status :: "string \<Rightarrow> entity list \<Rightarrow> entity list" where
  "by_status s qs = filter (\<lambda>x. status x = s) qs"

definition pending :: "conf \<Rightarrow> entity list \<Rightarrow> entity list" where
  "pending c qs = by_status (PENDING_STATUS c) qs"

definition challenged :: "conf \<Rightarrow> entity list \<Rightarrow> entity list" where
  "challenged c qs = by_status (CHALLENGED_STATUS c) qs"

definition approved :: "conf \<Rightarrow> entity list \<Rightarrow> entity list" where
  "approved c qs = by_status (APPROVED_STATUS c) qs"

subsection \<open>queryset\<close>

text \<open>
  \<^verbatim>\<open>QueryDict.get(key, None)\<close> gives the last value of the key, and the default when the key
  is absent or has no value; \<^verbatim>\<open>del d[key]\<close> removes the key with all its values and raises
  \<^verbatim>\<open>KeyError\<close> when the key is absent.
\<close>

definition querydict_get :: "querydict \<Rightarrow> string \<Rightarrow> string option" where
  "querydict_get q k =
     (case q k of
        None \<Rightarrow> None
      | Some vs \<Rightarrow> if vs = [] then None else Some (last vs))"

definition querydict_del :: "querydict \<Rightarrow> string \<Rightarrow> py_error + querydict" where
  "querydict_del q k = (case q k of None \<Rightarrow> Inl KeyError | Some vs \<Rightarrow> Inr (q(k := None)))"

text \<open>The truth value Python gives to \<^verbatim>\<open>None\<close> and to a string.\<close>

definition truthy :: "string option \<Rightarrow> bool" where
  "truthy v = (case v of None \<Rightarrow> False | Some s \<Rightarrow> s \<noteq> [])"

text \<open>
  \<^verbatim>\<open>queryset(request)\<close>. The parent class's queryset is a parameter, called with the request
  as it came in. The result is the queryset together with the request, whose \<^verbatim>\<open>GET\<close> the
  method may have replaced.
\<close>

definition queryset ::
  "conf \<Rightarrow> (request \<Rightarrow> entity list) \<Rightarrow> monitor_admin \<Rightarrow> request \<Rightarrow>
   py_error + (entity list \<times> request)" where
  "queryset c super_queryset self req =
     (let qs = super_queryset req;
          status_param = querydict_get (GET req) ''status'';
          req1 =
            (if truthy status_param then
               (case querydict_del (GET req) ''status'' of
                  Inl e \<Rightarrow> Inl e
                | Inr get_dict \<Rightarrow> Inr (req\<lparr>GET := get_dict\<rparr>))
             else Inr req)
      in case req1 of
           Inl e \<Rightarrow> Inl e
         | Inr req' \<Rightarrow>
             if truthy status_param \<and> status_param = Some (PENDING_STATUS c)
             then Inr (pending c qs, req')
             else if truthy status_param \<and> status_param = Some (CHALLENGED_STATUS c)
             then Inr (challenged c qs, req')
             else if truthy status_param \<and> status_param = Some (APPROVED_STATUS c)
             then Inr (approved c qs, req')
             else Inr (qs, req'))"

subsection \<open>Permission names and get_actions\<close>

text \<open>\<^verbatim>\<open>str.lower()\<close> on the letters A to Z; every other character is left as it is.\<close>

definition lower_char :: "char \<Rightarrow> char" where
  "lower_char ch =
     (case map_of (zip ''ABCDEFGHIJKLMNOPQRSTUVWXYZ'' ''abcdefghijklmnopqrstuvwxyz'') ch of
        Some l \<Rightarrow> l
      | None \<Rightarrow> ch)"

definition lower :: "string \<Rightarrow> string" where
  "lower s = map lower_char s"

text \<open>
  \<^verbatim>\<open>s.replace(old, new)\<close>: every occurrence of \<^verbatim>\<open>old\<close> in \<^verbatim>\<open>s\<close>, found from the left and
  without overlap, is replaced; an empty \<^verbatim>\<open>old\<close> matches before every character and at the
  end.
\<close>

function replace :: "string \<Rightarrow> string \<Rightarrow> string \<Rightarrow> string" where
  "replace old new s =
     (if old = [] then new @ concat (map (\<lambda>ch. ch # new) s)
      else if s = [] then []
      else if take (length old) s = old then new @ replace old new (drop (length old) s)
      else hd s # replace old new (tl s))"
  by pat_completeness auto
termination
  by (relation "measure (\<lambda>(old, new, s). length s)") (auto simp: neq_Nil_conv)

declare replace.simps [simp del]

text \<open>Python's \<^verbatim>\<open>old in s\<close> on strings: \<^verbatim>\<open>old\<close> occurs in \<^verbatim>\<open>s\<close> at some position.\<close>

fun occurs_in :: "string \<Rightarrow> string \<Rightarrow> bool" where
  "occurs_in old [] = (old = [])"
| "occurs_in old (ch # s) = (take (length old) (ch # s) = old \<or> occurs_in old s)"

text \<open>
  The local variables \<^verbatim>\<open>mod_perm\<close> and \<^verbatim>\<open>change_perm\<close> of \<^verbatim>\<open>get_actions\<close>, as functions of
  the model's options. \<^verbatim>\<open>has_moderate_permission\<close> builds \<^verbatim>\<open>mod_perm\<close> by the same expression.
\<close>

definition mod_perm :: "model \<Rightarrow> string" where
  "mod_perm opts = lower (app_label opts) @ ''.moderate_'' @ lower (object_name opts)"

definition change_perm :: "model \<Rightarrow> string" where
  "change_perm opts = replace ''moderate'' ''change'' (mod_perm opts)"

text \<open>
  An entry of the actions dictionary is the tuple (callable, name, description); the callable
  is represented by its name. \<^verbatim>\<open>monitor/actions.py\<close> is missing from the sources: whether an
  action function has a \<^verbatim>\<open>short_description\<close> attribute is a parameter, read as
  \<^verbatim>\<open>getattr(f, 'short_description', default)\<close> does.
\<close>

type_synonym action = "string \<times> string \<times> string"

type_synonym actions = "string \<rightharpoonup> action"

definition getattr_short_description :: "(string \<rightharpoonup> string) \<Rightarrow> string \<Rightarrow> string \<Rightarrow> string" where
  "getattr_short_description descr f dflt = (case descr f of Some d \<Rightarrow> d | None \<Rightarrow> dflt)"

text \<open>
  \<^verbatim>\<open>get_actions(request)\<close>. The parent class's \<^verbatim>\<open>get_actions\<close> is a parameter; the
  dictionary it returns is updated in place.
\<close>

definition get_actions ::
  "(string \<rightharpoonup> string) \<Rightarrow> (request \<Rightarrow> actions) \<Rightarrow> monitor_admin \<Rightarrow> request \<Rightarrow> actions" where
  "get_actions descr super_get_actions self req =
     (let actions0 = super_get_actions req;
          actions1 =
            (if has_perm req (mod_perm (admin_model self)) then
               (actions0
                  (''approve_selected'' \<mapsto>
                     (''approve_selected'', ''approve_selected'',
                      getattr_short_description descr ''approve_selected'' ''approve selected'')))
                  (''challenge_selected'' \<mapsto>
                     (''challenge_selected'', ''challenge_selected'',
                      getattr_short_description descr ''challenge_selected''
                        ''challenge selected''))
             else actions0)
      in if has_perm req (change_perm (admin_model self)) then
           actions1
             (''reset_to_pending'' \<mapsto>
                (''reset_to_pending'', ''reset_to_pending'',
                 getattr_short_description descr ''reset_to_pending'' ''reset to pending''))
         else actions1)"

definition has_moderate_permission :: "monitor_admin \<Rightarrow> request \<Rightarrow> bool" where
  "has_moderate_permission self req =
     has_perm req (lower (app_label (admin_model self)) @ ''.moderate_''
                   @ lower (object_name (admin_model self)))"

section \<open>The transition engine\<close>

text \<open>
  The database: the row of every instance, found by its model and its primary key.
\<close>

type_synonym store = "(model \<times> nat) \<rightharpoonup> entity"

text \<open>
  Modelled from the spec: the code that moderates an instance (\<^verbatim>\<open>monitor/__init__.py\<close>,
  \<^verbatim>\<open>monitor/models.py\<close>) is missing from the sources. \<^verbatim>\<open>transition(instance, target_status)\<close>:
  (1) look the type up in the registry, \<^verbatim>\<open>NotModeratedError\<close> if it is absent; (2) set the
  status of the instance and persist it; (3) if the type has a cascade parent, resolve the
  parent instance and repeat with the same target status, until a type with no cascade
  parent is reached. The registry is any map, so the chain of cascade parents may be
  cyclic: a transition that never ends has the value \<^verbatim>\<open>None\<close>.
\<close>

partial_function (option) transition ::
  "registry \<Rightarrow> store \<Rightarrow> model \<times> nat \<Rightarrow> string \<Rightarrow> (py_error + store) option" where
  "transition reg db inst target =
     (case model_from_queue reg (fst inst) of
        None \<Rightarrow> Some (Inl NotModeratedError)
      | Some config \<Rightarrow>
          (case db inst of
             None \<Rightarrow> Some (Inl DoesNotExist)
           | Some row \<Rightarrow>
               (let db1 = db(inst \<mapsto> row\<lparr>status := target\<rparr>) in
                case cascade_parent config of
                  None \<Rightarrow> Some (Inr db1)
                | Some parent_model \<Rightarrow>
                    (case parent_ptr row of
                       None \<Rightarrow> Some (Inl DoesNotExist)
                     | Some parent_pk \<Rightarrow>
                         transition reg db1 (parent_model, parent_pk) target))))"

text \<open>
  Modelled from the spec: \<^verbatim>\<open>approve()\<close>, \<^verbatim>\<open>challenge()\<close> and \<^verbatim>\<open>reset_to_pending()\<close> delegate to
  the transition engine through the dispatcher \<^verbatim>\<open>moderate(new_status)\<close>.
\<close>

datatype moderation = Approve | Challenge | Reset_to_pending

definition target_status :: "conf \<Rightarrow> moderation \<Rightarrow> string" where
  "target_status c act =
     (case act of
        Approve \<Rightarrow> APPROVED_STATUS c
      | Challenge \<Rightarrow> CHALLENGED_STATUS c
      | Reset_to_pending \<Rightarrow> PENDING_STATUS c)"

definition moderate ::
  "conf \<Rightarrow> registry \<Rightarrow> store \<Rightarrow> model \<times> nat \<Rightarrow> moderation \<Rightarrow> (py_error + store) option" where
  "moderate c reg db inst act = transition reg db inst (target_status c act)"

text \<open>
  Modelled from the spec: the save path that creates an instance is missing from the
  sources. The record is persisted in \<^verbatim>\<open>PENDING\<close>; if the actor holds the moderate permission
  of the type, the engine is invoked with target \<^verbatim>\<open>APPROVED\<close> immediately after; otherwise
  the record remains \<^verbatim>\<open>PENDING\<close>. The actor is its permission check.
\<close>

definition create ::
  "conf \<Rightarrow> registry \<Rightarrow> (string \<Rightarrow> bool) \<Rightarrow> store \<Rightarrow> model \<times> nat \<Rightarrow> nat option \<Rightarrow>
   (py_error + store) option" where
  "create c reg actor_has_perm db inst parent =
     (case model_from_queue reg (fst inst) of
        None \<Rightarrow> Some (Inl NotModeratedError)
      | Some config \<Rightarrow>
          (let db1 = db(inst \<mapsto> \<lparr>pk = snd inst, status = PENDING_STATUS c, parent_ptr = parent\<rparr>)
           in if actor_has_perm (mod_perm (fst inst))
              then transition reg db1 inst (APPROVED_STATUS c)
              else Some (Inr db1)))"

text \<open>
  The cascade parent of an instance, and the chain of instances reached from an instance by
  going to the cascade parent any number of times.
\<close>

definition parent_instance :: "registry \<Rightarrow> store \<Rightarrow> model \<times> nat \<Rightarrow> (model \<times> nat) option" where
  "parent_instance reg db inst =
     (case model_from_queue reg (fst inst) of
        None \<Rightarrow> None
      | Some config \<Rightarrow>
          (case cascade_parent config of
             None \<Rightarrow> None
           | Some parent_model \<Rightarrow>
               (case db inst of
                  None \<Rightarrow> None
                | Some row \<Rightarrow> map_option (Pair parent_model) (parent_ptr row))))"

inductive chain :: "('a \<Rightarrow> 'a option) \<Rightarrow> 'a \<Rightarrow> 'a \<Rightarrow> bool" for parent where
  chain_self: "chain parent i i"
| chain_up: "parent i = Some p \<Longrightarrow> chain parent p j \<Longrightarrow> chain parent i j"

code_pred chain .

definition status_of :: "store \<Rightarrow> model \<times> nat \<Rightarrow> string option" where
  "status_of db inst = map_option status (db inst)"

text \<open>
  A registry is acyclic when its models can be ranked so that every cascade parent ranks
  below its child, as the parents of a class hierarchy do.
\<close>

definition acyclic_queue :: "registry \<Rightarrow> (model \<Rightarrow> nat) \<Rightarrow> bool" where
  "acyclic_queue reg rank =
     (\<forall>m config p. reg m = Some config \<and> cascade_parent config = Some p \<longrightarrow> rank p < rank m)"

section \<open>The default manager and the repository's tests\<close>





section \<open>Fixtures of the test application\<close>

text \<open>
  The status codes the comments of the tests name (\<^verbatim>\<open>IP\<close>, \<^verbatim>\<open>AP\<close>), the models of the test
  application and the two users of \<^verbatim>\<open>ModTest.setUp\<close> with the permissions it gives them.
\<close>

definition conf0 :: conf where
  "conf0 = \<lparr>PENDING_STATUS = ''IP'', CHALLENGED_STATUS = ''CH'', APPROVED_STATUS = ''AP''\<rparr>"

definition Author :: model where
  "Author = \<lparr>app_label = ''testapp'', object_name = ''Author'', pk_attname = ''id''\<rparr>"

definition Book :: model where
  "Book = \<lparr>app_label = ''testapp'', object_name = ''Book'', pk_attname = ''id''\<rparr>"

definition EBook :: model where
  "EBook = \<lparr>app_label = ''testapp'', object_name = ''EBook'', pk_attname = ''book_ptr_id''\<rparr>"

definition ModeratedPost :: model where
  "ModeratedPost = \<lparr>app_label = ''blog'', object_name = ''ModeratedPost'', pk_attname = ''id''\<rparr>"

definition queue0 :: registry where
  "queue0 = [Author \<mapsto> \<lparr>can_delete_approved = True, cascade_parent = None\<rparr>,
             Book \<mapsto> \<lparr>can_delete_approved = True, cascade_parent = None\<rparr>,
             EBook \<mapsto> \<lparr>can_delete_approved = True, cascade_parent = Some Book\<rparr>]"

definition rank0 :: "model \<Rightarrow> nat" where
  "rank0 m = (if m = EBook then 1 else 0)"

definition adder :: "string \<Rightarrow> bool" where
  "adder perm = (perm \<in> set [''testapp.add_author'', ''testapp.add_book'', ''testapp.add_ebook'',
                               ''testapp.add_supplement'', ''testapp.change_author''])"

definition moderator :: "string \<Rightarrow> bool" where
  "moderator perm =
     (perm \<in> set [''testapp.add_author'', ''testapp.add_book'', ''testapp.add_ebook'',
                   ''testapp.add_supplement'', ''testapp.moderate_author'',
                   ''testapp.moderate_book'', ''testapp.moderate_ebook'',
                   ''testapp.moderate_supplement'', ''testapp.change_author'',
                   ''testapp.change_book'', ''testapp.change_ebook''])"


definition ebook_db :: store where
  "ebook_db = [(Book, 1) \<mapsto> \<lparr>pk = 1, status = ''IP'', parent_ptr = None\<rparr>,
               (EBook, 1) \<mapsto> \<lparr>pk = 1, status = ''IP'', parent_ptr = Some 1\<rparr>]"

text \<open>An admin that declares nothing, and the only action the admin site gives it.\<close>

definition plain_admin :: "model \<Rightarrow> monitor_admin" where
  "plain_admin m =
     monitor_admin_init model_admin_init
       \<lparr>declared_list_filter = [], declared_list_display = [''__str__''],
        declared_readonly_fields = Tuple [], declared_protected_fields = Tuple []\<rparr> m ''admin''"

text \<open>
  An admin that declares \<^verbatim>\<open>protected_fields = ['name']\<close>, a list, and leaves
  \<^verbatim>\<open>readonly_fields\<close> at the empty tuple it has by default.
\<close>

definition protecting_admin :: "model \<Rightarrow> monitor_admin" where
  "protecting_admin m =
     monitor_admin_init model_admin_init
       \<lparr>declared_list_filter = [], declared_list_display = [''__str__''],
        declared_readonly_fields = Tuple [], declared_protected_fields = List [''name'']\<rparr>
       m ''admin''"

definition site_actions :: "request \<Rightarrow> actions" where
  "site_actions req =
     [''delete_selected'' \<mapsto> (''delete_selected'', ''delete_selected'', ''Delete selected'')]"

text \<open>A site on which \<^verbatim>\<open>reset_to_pending\<close> has been added as an action of every admin.\<close>

definition site_actions_with_reset :: "request \<Rightarrow> actions" where
  "site_actions_with_reset req =
     [''delete_selected'' \<mapsto> (''delete_selected'', ''delete_selected'', ''Delete selected''),
      ''reset_to_pending'' \<mapsto> (''reset_to_pending'', ''reset_to_pending'', ''reset to pending'')]"

definition request_of :: "(string \<Rightarrow> bool) \<Rightarrow> querydict \<Rightarrow> request" where
  "request_of user params = \<lparr>GET = params, has_perm = user\<rparr>"

section \<open>Helper facts\<close>

lemma models_distinct:
  "Author \<noteq> Book" "Author \<noteq> EBook" "Book \<noteq> EBook"
  "Book \<noteq> Author" "EBook \<noteq> Author" "EBook \<noteq> Book"
  by (simp_all add: Author_def Book_def EBook_def)

subsection \<open>replace\<close>

lemma replace_Nil: "old \<noteq> [] \<Longrightarrow> replace old new [] = []"
  by (subst replace.simps) simp

lemma replace_skip:
  "old \<noteq> [] \<Longrightarrow> take (length old) (ch # s) \<noteq> old \<Longrightarrow>
   replace old new (ch # s) = ch # replace old new s"
  by (subst replace.simps) simp

lemma replace_hit:
  "old \<noteq> [] \<Longrightarrow> replace old new (old @ s) = new @ replace old new s"
  by (subst replace.simps) simp

lemma replace_absent:
  "old \<noteq> [] \<Longrightarrow> \<not> occurs_in old s \<Longrightarrow> replace old new s = s"
  by (induction s) (simp_all add: replace_Nil replace_skip)

lemma take_across_separator:
  assumes "sep \<notin> set old" and "take (length old) xs \<noteq> old"
  shows "take (length old) (xs @ sep # ys) \<noteq> old"
proof (cases "length old \<le> length xs")
  case True
  then show ?thesis using assms(2) by simp
next
  case False
  then have "sep \<in> set (take (length old) (xs @ sep # ys))"
    by (cases "length old - length xs") auto
  with assms(1) show ?thesis by metis
qed

text \<open>
  When \<^verbatim>\<open>old\<close> occurs neither before nor after the slot, and the separators around the slot
  are not characters of \<^verbatim>\<open>old\<close>, the only occurrence replaced is the slot itself.
\<close>

lemma replace_verb_slot:
  assumes old: "old \<noteq> []" and s1: "sep1 \<notin> set old" and s2: "sep2 \<notin> set old"
    and a: "\<not> occurs_in old a" and b: "\<not> occurs_in old b"
  shows "replace old new (a @ sep1 # old @ sep2 # b) = a @ sep1 # new @ sep2 # b"
  using a
proof (induction a)
  case Nil
  have h1: "take (length old) (sep1 # old @ sep2 # b) \<noteq> old"
    using take_across_separator [OF s1, of "[]" "old @ sep2 # b"] old by simp
  have h2: "take (length old) (sep2 # b) \<noteq> old"
    using take_across_separator [OF s2, of "[]" b] old by simp
  have "replace old new (sep2 # b) = sep2 # b"
    using replace_skip [OF old h2] replace_absent [OF old b] by simp
  then show ?case
    using replace_skip [OF old h1] replace_hit [OF old, of new "sep2 # b"] by simp
next
  case (Cons ch a)
  then have h: "take (length old) (ch # a) \<noteq> old" and a': "\<not> occurs_in old a"
    by simp_all
  have "take (length old) ((ch # a) @ sep1 # old @ sep2 # b) \<noteq> old"
    by (rule take_across_separator [OF s1 h])
  then show ?case
    using replace_skip [OF old, of ch "a @ sep1 # old @ sep2 # b" new] Cons.IH [OF a'] by simp
qed

lemma change_perm_verb_slot:
  assumes "\<not> occurs_in ''moderate'' (lower (app_label opts))"
    and "\<not> occurs_in ''moderate'' (lower (object_name opts))"
  shows "change_perm opts = lower (app_label opts) @ ''.change_'' @ lower (object_name opts)"
proof -
  have "replace ''moderate'' ''change''
          (lower (app_label opts) @ CHR ''.'' # ''moderate'' @ CHR ''_'' # lower (object_name opts))
        = lower (app_label opts) @ CHR ''.'' # ''change'' @ CHR ''_'' # lower (object_name opts)"
    by (rule replace_verb_slot [OF _ _ _ assms]) simp_all
  then show ?thesis by (simp add: change_perm_def mod_perm_def)
qed

lemma has_moderate_permission_mod_perm:
  "has_moderate_permission self req = has_perm req (mod_perm (admin_model self))"
  by (simp add: has_moderate_permission_def mod_perm_def)

subsection \<open>The transition engine\<close>

lemma parent_instance_update:
  "db inst = Some row \<Longrightarrow>
   parent_instance reg (db(inst \<mapsto> row\<lparr>status := t\<rparr>)) = parent_instance reg db"
  by (rule ext) (simp add: parent_instance_def split: option.splits)

text \<open>
  A transition that returns a store has written the target status to its instance, and has
  changed no row in any other way than by writing the target status to it.
\<close>

lemma transition_writes:
  "transition reg db inst t = Some r \<Longrightarrow> r = Inr db' \<Longrightarrow>
   (\<exists>row. db inst = Some row \<and> db' inst = Some (row\<lparr>status := t\<rparr>))
   \<and> (\<forall>j. db' j = db j \<or> (\<exists>row. db j = Some row \<and> db' j = Some (row\<lparr>status := t\<rparr>)))"
proof (induction arbitrary: db'
    rule: transition.raw_induct [rotated 1, consumes 1, case_names step])
  case (step transition reg db inst t r)
  from step.hyps step.prems obtain config row where
    cfg: "model_from_queue reg (fst inst) = Some config" and row: "db inst = Some row"
    by (auto split: option.splits)
  let ?db1 = "db(inst \<mapsto> row\<lparr>status := t\<rparr>)"
  show ?case
  proof (cases "cascade_parent config")
    case None
    with step.hyps step.prems cfg row have "db' = ?db1" by (simp add: Let_def)
    with row show ?thesis by auto
  next
    case (Some pm)
    with step.hyps step.prems cfg row obtain ppk where
      ptr: "parent_ptr row = Some ppk" and rec: "transition reg ?db1 (pm, ppk) t = Some r"
      by (auto simp: Let_def split: option.splits)
    note ih = step.IH [OF rec step.prems]
    from ih have all:
      "\<And>j. db' j = ?db1 j \<or> (\<exists>row'. ?db1 j = Some row' \<and> db' j = Some (row'\<lparr>status := t\<rparr>))"
      by blast
    have "db' inst = Some (row\<lparr>status := t\<rparr>)"
      using all [of inst] by auto
    moreover have
      "db' j = db j \<or> (\<exists>row. db j = Some row \<and> db' j = Some (row\<lparr>status := t\<rparr>))" for j
      using all [of j] row by (cases "j = inst") auto
    ultimately show ?thesis using row by blast
  qed
qed

lemma transition_chain:
  "chain par inst j \<Longrightarrow> par = parent_instance reg db \<Longrightarrow>
   transition reg db inst t = Some (Inr db') \<Longrightarrow> status_of db' j = Some t"
proof (induction arbitrary: db rule: chain.induct)
  case (chain_self i)
  from transition_writes [OF chain_self.prems(2) refl] show ?case
    by (auto simp: status_of_def)
next
  case (chain_up i p j)
  from chain_up.hyps(1) chain_up.prems(1) obtain config row pm ppk where
    cfg: "model_from_queue reg (fst i) = Some config" and row: "db i = Some row"
    and pm: "cascade_parent config = Some pm" and ptr: "parent_ptr row = Some ppk"
    and peq: "p = (pm, ppk)"
    by (auto simp: parent_instance_def split: option.splits)
  let ?db1 = "db(i \<mapsto> row\<lparr>status := t\<rparr>)"
  from chain_up.prems(2) cfg row pm ptr peq
  have rec: "transition reg ?db1 p t = Some (Inr db')"
    by (subst (asm) transition.simps) (simp add: Let_def)
  have "par = parent_instance reg ?db1"
    using chain_up.prems(1) row by (simp add: parent_instance_update)
  from chain_up.IH [OF this rec] show ?case .
qed

text \<open>On an acyclic registry every transition returns: a store or an error.\<close>

lemma transition_returns:
  assumes "acyclic_queue reg rank"
  shows "\<exists>r. transition reg db inst t = Some r"
proof (induction "rank (fst inst)" arbitrary: db inst rule: less_induct)
  case less
  show ?case
  proof (cases "model_from_queue reg (fst inst)")
    case None
    then show ?thesis by (subst transition.simps) simp
  next
    case (Some config)
    note cfg = this
    show ?thesis
    proof (cases "db inst")
      case None
      with cfg show ?thesis by (subst transition.simps) simp
    next
      case (Some row)
      note row = this
      show ?thesis
      proof (cases "cascade_parent config")
        case None
        with cfg row show ?thesis by (subst transition.simps) (simp add: Let_def)
      next
        case (Some pm)
        note pm = this
        show ?thesis
        proof (cases "parent_ptr row")
          case None
          with cfg row pm show ?thesis by (subst transition.simps) (simp add: Let_def)
        next
          case (Some ppk)
          from assms cfg pm have "rank pm < rank (fst inst)"
            by (auto simp: acyclic_queue_def model_from_queue_def)
          then have "\<exists>r. transition reg (db(inst \<mapsto> row\<lparr>status := t\<rparr>)) (pm, ppk) t = Some r"
            using less [of "(pm, ppk)"] by simp
          with cfg row pm Some show ?thesis
            by (subst transition.simps) (simp add: Let_def)
        qed
      qed
    qed
  qed
qed

lemma transition_root:
  "model_from_queue reg (fst inst) = Some config \<Longrightarrow> cascade_parent config = None \<Longrightarrow>
   db inst = Some row \<Longrightarrow>
   transition reg db inst t = Some (Inr (db(inst \<mapsto> row\<lparr>status := t\<rparr>)))"
  by (subst transition.simps) (simp add: Let_def)

lemma acyclic_queue0: "acyclic_queue queue0 rank0"
  using models_distinct
  by (auto simp: acyclic_queue_def queue0_def rank0_def split: if_splits)

lemma parent_of_ebook: "parent_instance queue0 ebook_db (EBook, 1) = Some (Book, 1)"
  using models_distinct
  by (simp add: parent_instance_def queue0_def ebook_db_def model_from_queue_def)

lemma approve_ebook:
  "moderate conf0 queue0 ebook_db (EBook, 1) Approve =
     Some (Inr (ebook_db((EBook, 1) \<mapsto> \<lparr>pk = 1, status = ''AP'', parent_ptr = Some 1\<rparr>,
                         (Book, 1) \<mapsto> \<lparr>pk = 1, status = ''AP'', parent_ptr = None\<rparr>)))"
  unfolding moderate_def
  apply (subst transition.simps)
  apply (simp add: models_distinct target_status_def conf0_def queue0_def ebook_db_def
      model_from_queue_def Let_def)
  apply (subst transition.simps)
  apply (simp add: models_distinct queue0_def model_from_queue_def Let_def)
  done

section \<open>Properties of the admin layer\<close>

text \<open>
  C10. Whatever the model, the admin site and the moderation queue (the constructor does not
  read the queue), and whatever the parent class's constructor has left in the two
  attributes: the constructed admin's \<^verbatim>\<open>list_filter\<close> is the primary key's attribute name
  followed by that \<^verbatim>\<open>list_filter\<close>, and its \<^verbatim>\<open>list_display\<close> is that \<^verbatim>\<open>list_display\<close> followed
  by \<^verbatim>\<open>'get_status_display'\<close>, which is its last entry. With a parent constructor that leaves
  the declared attributes as they are, these are the declared \<^verbatim>\<open>list_filter\<close> and the declared
  \<^verbatim>\<open>list_display\<close>.
\<close>

theorem monitor_admin_init_lists:
  "list_filter (monitor_admin_init super_init cls m site)
     = pk_attname (admin_model (super_init cls m site)) # list_filter (super_init cls m site)
   \<and> list_display (monitor_admin_init super_init cls m site)
       = list_display (super_init cls m site) @ [''get_status_display'']
   \<and> last (list_display (monitor_admin_init super_init cls m site)) = ''get_status_display''
   \<and> butlast (list_display (monitor_admin_init super_init cls m site))
       = list_display (super_init cls m site)
   \<and> list_filter (monitor_admin_init model_admin_init cls m site)
       = pk_attname m # declared_list_filter cls
   \<and> list_display (monitor_admin_init model_admin_init cls m site)
       = declared_list_display cls @ [''get_status_display'']
   \<and> last (list_display (monitor_admin_init model_admin_init cls m site))
       = ''get_status_display''
   \<and> butlast (list_display (monitor_admin_init model_admin_init cls m site))
       = declared_list_display cls"
  by (simp add: monitor_admin_init_def model_admin_init_def Let_def)

text \<open>
  C4. \<^verbatim>\<open>has_delete_permission(request, obj)\<close> is false when the model is in the queue with
  \<^verbatim>\<open>can_delete_approved\<close> false and \<^verbatim>\<open>obj\<close> is an instance that is approved, whatever the
  parent class's check says; in every other case it is what the parent class's check
  returns for the same request and object.
\<close>

theorem has_delete_permission_override:
  "has_delete_permission c reg super_has_delete_permission self req obj =
     (if \<exists>entry ob. model_from_queue reg (admin_model self) = Some entry
                     \<and> \<not> can_delete_approved entry \<and> obj = Some ob \<and> is_approved c ob
      then False
      else super_has_delete_permission req obj)"
  by (auto simp: has_delete_permission_def split: option.splits)

text \<open>
  C9. The claim: \<^verbatim>\<open>get_readonly_fields(request, obj)\<close> returns the declared readonly fields
  extended with the protected fields when the model is monitored and \<^verbatim>\<open>obj\<close> is an approved
  instance. The method adds the two attributes with \<^verbatim>\<open>+\<close> as they were declared: for an
  admin that declares \<^verbatim>\<open>protected_fields = ['name']\<close> and leaves \<^verbatim>\<open>readonly_fields\<close> at its
  default, the empty tuple, the call on an approved author raises \<^verbatim>\<open>TypeError\<close> and returns no
  fields; on the add form and on a pending author the same admin returns its readonly
  fields.
\<close>

theorem get_readonly_fields_list_with_tuple:
  "is_monitored queue0 (protecting_admin Author)
   \<and> readonly_fields (protecting_admin Author) = Tuple []
   \<and> protected_fields (protecting_admin Author) = List [''name'']
   \<and> get_readonly_fields conf0 queue0 (protecting_admin Author) req
        (Some \<lparr>pk = 1, status = ''AP'', parent_ptr = None\<rparr>) = Inl TypeError
   \<and> get_readonly_fields conf0 queue0 (protecting_admin Author) req
        (Some \<lparr>pk = 1, status = ''IP'', parent_ptr = None\<rparr>) = Inr (Tuple [])
   \<and> get_readonly_fields conf0 queue0 (protecting_admin Author) req None = Inr (Tuple [])"
  by (simp add: get_readonly_fields_def is_monitored_def model_from_queue_def queue0_def
      models_distinct protecting_admin_def monitor_admin_init_def model_admin_init_def
      Let_def conf0_def)

text \<open>
  What the method does when the two attributes are of one kind, both tuples or both lists:
  the readonly fields followed by the protected fields when the model is monitored and
  \<^verbatim>\<open>obj\<close> is an approved instance, and the readonly fields in every other case.
\<close>

lemma get_readonly_fields_same_kind:
  assumes "(\<exists>xs ys. readonly_fields self = Tuple xs \<and> protected_fields self = Tuple ys)
           \<or> (\<exists>xs ys. readonly_fields self = List xs \<and> protected_fields self = List ys)"
  shows "\<exists>fields. get_readonly_fields c reg self req obj = Inr fields
          \<and> items fields =
              (if is_monitored reg self \<and> (\<exists>ob. obj = Some ob \<and> status ob = APPROVED_STATUS c)
               then items (readonly_fields self) @ items (protected_fields self)
               else items (readonly_fields self))"
  using assms by (auto simp: get_readonly_fields_def split: option.splits)

text \<open>
  C6. \<^verbatim>\<open>queryset(request)\<close> raises no error. When the request has a non-empty status
  parameter that is one of the three status constants, the queryset returned holds exactly
  the instances of the parent class's queryset with that status, in their order; when the
  parameter is absent or is no status constant, it is the parent class's queryset unchanged.
\<close>

theorem queryset_narrows_by_status:
  "\<exists>req'. queryset c super_queryset self req =
     Inr ((case querydict_get (GET req) ''status'' of
             None \<Rightarrow> super_queryset req
           | Some s \<Rightarrow>
               if s \<noteq> [] \<and> s \<in> {PENDING_STATUS c, CHALLENGED_STATUS c, APPROVED_STATUS c}
               then filter (\<lambda>x. status x = s) (super_queryset req)
               else super_queryset req), req')"
  by (auto simp: queryset_def Let_def truthy_def querydict_get_def querydict_del_def
      pending_def challenged_def approved_def by_status_def
      split: option.splits sum.splits)

text \<open>
  C7. The claim: whenever the request has a status parameter, the parameter is gone from
  the request after \<^verbatim>\<open>queryset\<close> and every other parameter is unchanged. The method removes
  the parameter only when its value is a non-empty string: a request with the parameter
  present and blank (\<^verbatim>\<open>?status=\<close>, with or without other parameters) leaves \<^verbatim>\<open>queryset\<close> with
  the status key still among its parameters.
\<close>

theorem queryset_keeps_blank_status:
  "queryset c super_queryset self
     (request_of user [''status'' \<mapsto> [''''], ''q'' \<mapsto> [''django'']])
   = Inr (super_queryset (request_of user [''status'' \<mapsto> [''''], ''q'' \<mapsto> [''django'']]),
          request_of user [''status'' \<mapsto> [''''], ''q'' \<mapsto> [''django'']])
   \<and> querydict_get [''status'' \<mapsto> [''''], ''q'' \<mapsto> [''django'']] ''status'' = Some ''''
   \<and> ''status'' \<in> dom [''status'' \<mapsto> [''''], ''q'' \<mapsto> [''django'']]"
  by (simp add: queryset_def Let_def truthy_def querydict_get_def request_of_def)

text \<open>
  What the method does for a status parameter with a non-empty value: the key is removed
  and every other parameter is kept.
\<close>

lemma queryset_removes_status:
  assumes "querydict_get (GET req) ''status'' = Some s" and "s \<noteq> []"
  shows "\<exists>qs. queryset c super_queryset self req
                = Inr (qs, req\<lparr>GET := (GET req)(''status'' := None)\<rparr>)"
  using assms
  by (auto simp: queryset_def Let_def truthy_def querydict_get_def querydict_del_def
      split: option.splits if_splits)

text \<open>
  C5 (as amended). For every request \<^verbatim>\<open>get_actions\<close> returns every action the parent
  class's \<^verbatim>\<open>get_actions\<close> returns, and beyond them none but the three moderation actions.
  \<^verbatim>\<open>approve_selected\<close> and \<^verbatim>\<open>challenge_selected\<close> are among the actions returned exactly when
  the user holds the moderate permission of the model or the parent class has returned
  them. When \<^verbatim>\<open>moderate\<close> occurs neither in the lower-cased application label nor in the
  lower-cased object name, \<^verbatim>\<open>reset_to_pending\<close> is among them exactly when the user holds the
  change permission of the model or the parent class has returned it; the moderate
  permission plays no part in \<^verbatim>\<open>reset_to_pending\<close>.
\<close>

theorem get_actions_by_permission:
  "dom (super_get_actions req) \<subseteq> dom (get_actions descr super_get_actions self req)
   \<and> dom (get_actions descr super_get_actions self req)
       \<subseteq> dom (super_get_actions req)
         \<union> {''approve_selected'', ''challenge_selected'', ''reset_to_pending''}
   \<and> (''approve_selected'' \<in> dom (get_actions descr super_get_actions self req)
        \<longleftrightarrow> has_perm req (lower (app_label (admin_model self)) @ ''.moderate_''
                          @ lower (object_name (admin_model self)))
            \<or> ''approve_selected'' \<in> dom (super_get_actions req))
   \<and> (''challenge_selected'' \<in> dom (get_actions descr super_get_actions self req)
        \<longleftrightarrow> has_perm req (lower (app_label (admin_model self)) @ ''.moderate_''
                          @ lower (object_name (admin_model self)))
            \<or> ''challenge_selected'' \<in> dom (super_get_actions req))
   \<and> (\<not> occurs_in ''moderate'' (lower (app_label (admin_model self)))
        \<and> \<not> occurs_in ''moderate'' (lower (object_name (admin_model self)))
        \<longrightarrow> (''reset_to_pending'' \<in> dom (get_actions descr super_get_actions self req)
               \<longleftrightarrow> has_perm req (lower (app_label (admin_model self)) @ ''.change_''
                                 @ lower (object_name (admin_model self)))
                   \<or> ''reset_to_pending'' \<in> dom (super_get_actions req)))"
proof -
  have mp: "mod_perm (admin_model self)
              = lower (app_label (admin_model self)) @ ''.moderate_''
                @ lower (object_name (admin_model self))"
    by (simp add: mod_perm_def)
  have 1: "dom (super_get_actions req) \<subseteq> dom (get_actions descr super_get_actions self req)"
    unfolding get_actions_def Let_def by (auto simp: dom_def)
  have 2: "dom (get_actions descr super_get_actions self req)
             \<subseteq> dom (super_get_actions req)
               \<union> {''approve_selected'', ''challenge_selected'', ''reset_to_pending''}"
    unfolding get_actions_def Let_def by (auto simp: dom_def split: if_splits)
  have 3: "''approve_selected'' \<in> dom (get_actions descr super_get_actions self req)
        \<longleftrightarrow> has_perm req (lower (app_label (admin_model self)) @ ''.moderate_''
                          @ lower (object_name (admin_model self)))
            \<or> ''approve_selected'' \<in> dom (super_get_actions req)"
    unfolding get_actions_def Let_def mp by (auto simp: dom_def)
  have 4: "''challenge_selected'' \<in> dom (get_actions descr super_get_actions self req)
        \<longleftrightarrow> has_perm req (lower (app_label (admin_model self)) @ ''.moderate_''
                          @ lower (object_name (admin_model self)))
            \<or> ''challenge_selected'' \<in> dom (super_get_actions req)"
    unfolding get_actions_def Let_def mp by (auto simp: dom_def)
  have 5: "''reset_to_pending'' \<in> dom (get_actions descr super_get_actions self req)
               \<longleftrightarrow> has_perm req (lower (app_label (admin_model self)) @ ''.change_''
                                 @ lower (object_name (admin_model self)))
                   \<or> ''reset_to_pending'' \<in> dom (super_get_actions req)"
    if a: "\<not> occurs_in ''moderate'' (lower (app_label (admin_model self)))"
      and b: "\<not> occurs_in ''moderate'' (lower (object_name (admin_model self)))"
  proof -
    have cp: "change_perm (admin_model self)
                = lower (app_label (admin_model self)) @ ''.change_''
                  @ lower (object_name (admin_model self))"
      by (rule change_perm_verb_slot [OF a b])
    show ?thesis
      unfolding get_actions_def Let_def cp by (auto simp: dom_def)
  qed
  from 1 2 3 4 5 show ?thesis by blast
qed

text \<open>
  At the admin of \<^verbatim>\<open>Author\<close>, where the site gives \<^verbatim>\<open>delete_selected\<close> only, the adder of
  the tests (who holds \<^verbatim>\<open>change_author\<close> and not \<^verbatim>\<open>moderate_author\<close>) is offered
  \<^verbatim>\<open>reset_to_pending\<close> and \<^verbatim>\<open>delete_selected\<close>, and neither of the other two.
\<close>

theorem get_actions_by_permission_witness:
  "\<not> occurs_in ''moderate'' (lower (app_label (admin_model (plain_admin Author))))
   \<and> \<not> occurs_in ''moderate'' (lower (object_name (admin_model (plain_admin Author))))
   \<and> dom (site_actions (request_of adder Map.empty)) = {''delete_selected''}
   \<and> adder ''testapp.change_author'' \<and> \<not> adder ''testapp.moderate_author''
   \<and> ''reset_to_pending''
        \<in> dom (get_actions Map.empty site_actions (plain_admin Author) (request_of adder Map.empty))
   \<and> ''approve_selected''
        \<notin> dom (get_actions Map.empty site_actions (plain_admin Author) (request_of adder Map.empty))
   \<and> ''challenge_selected''
        \<notin> dom (get_actions Map.empty site_actions (plain_admin Author) (request_of adder Map.empty))
   \<and> ''delete_selected''
        \<in> dom (get_actions Map.empty site_actions (plain_admin Author) (request_of adder Map.empty))"
proof -
  have am: "admin_model (plain_admin Author) = Author"
    by (simp add: plain_admin_def monitor_admin_init_def model_admin_init_def Let_def)
  have names:
    "lower (app_label (admin_model (plain_admin Author))) = ''testapp''"
    "lower (object_name (admin_model (plain_admin Author))) = ''author''"
    unfolding am by (simp_all add: Author_def lower_def lower_char_def)
  have h1: "\<not> occurs_in ''moderate'' (lower (app_label (admin_model (plain_admin Author))))"
    unfolding names by simp
  have h2: "\<not> occurs_in ''moderate'' (lower (object_name (admin_model (plain_admin Author))))"
    unfolding names by simp
  have site: "dom (site_actions (request_of adder Map.empty)) = {''delete_selected''}"
    by (simp add: site_actions_def)
  have perms: "adder ''testapp.change_author''" "\<not> adder ''testapp.moderate_author''"
    by (simp_all add: adder_def)
  have hp: "has_perm (request_of adder Map.empty) = adder"
    by (simp add: request_of_def)
  from get_actions_by_permission
         [where self = "plain_admin Author" and super_get_actions = site_actions
            and req = "request_of adder Map.empty" and descr = Map.empty]
       h1 h2
  show ?thesis
    unfolding names site hp using perms by auto
qed

text \<open>
  The claim as it was stated fails where the parent class already returns one of the
  actions: on a site that has \<^verbatim>\<open>reset_to_pending\<close> among its own actions, a user with no
  permission at all is offered it.
\<close>

theorem get_actions_inherited_counterexample:
  "\<not> (''reset_to_pending''
         \<in> dom (get_actions Map.empty site_actions_with_reset (plain_admin Author)
                  (request_of (\<lambda>perm. False) Map.empty))
       \<longleftrightarrow> has_perm (request_of (\<lambda>perm. False) Map.empty) ''testapp.change_author'')"
  by (simp add: get_actions_def Let_def site_actions_with_reset_def request_of_def)

text \<open>
  C8. The claim: the change permission that gates \<^verbatim>\<open>reset_to_pending\<close> is
  \<^verbatim>\<open>A.change_O\<close> also when \<^verbatim>\<open>A\<close> or \<^verbatim>\<open>O\<close> contains \<^verbatim>\<open>moderate\<close>. The code builds it by replacing
  every \<^verbatim>\<open>moderate\<close> in the moderate permission's name: for the model \<^verbatim>\<open>ModeratedPost\<close> of the
  application \<^verbatim>\<open>blog\<close> the moderate permission checked is \<^verbatim>\<open>blog.moderate_moderatedpost\<close>, the
  change permission checked is \<^verbatim>\<open>blog.change_changedpost\<close>, and a user who holds
  \<^verbatim>\<open>blog.change_moderatedpost\<close> and nothing else is not offered \<^verbatim>\<open>reset_to_pending\<close>.
\<close>

theorem change_perm_replaces_every_moderate:
  "mod_perm ModeratedPost = ''blog.moderate_moderatedpost''
   \<and> change_perm ModeratedPost = ''blog.change_changedpost''
   \<and> change_perm ModeratedPost \<noteq> ''blog.change_moderatedpost''
   \<and> ''reset_to_pending''
        \<notin> dom (get_actions Map.empty site_actions (plain_admin ModeratedPost)
                 (request_of (\<lambda>perm. perm = ''blog.change_moderatedpost'') Map.empty))"
proof -
  have mp: "mod_perm ModeratedPost = ''blog.moderate_moderatedpost''"
    by (simp add: mod_perm_def ModeratedPost_def lower_def lower_char_def)
  have cp: "change_perm ModeratedPost = ''blog.change_changedpost''"
    unfolding change_perm_def mp by code_simp
  have am: "admin_model (plain_admin ModeratedPost) = ModeratedPost"
    by (simp add: plain_admin_def monitor_admin_init_def model_admin_init_def Let_def)
  show ?thesis
    unfolding get_actions_def Let_def am cp mp
    by (simp add: site_actions_def request_of_def)
qed

section \<open>Properties of the transition engine and of the default manager\<close>

text \<open>
  C2. On an acyclic registry a transition (approve, challenge or reset) always returns.
  When it returns a store, every instance on the cascade chain of the instance (the
  instance, its cascade parent, the parent's cascade parent, up to an instance whose type
  has no cascade parent) has the target status; for an instance \<^verbatim>\<open>I\<close> with cascade
  parent \<^verbatim>\<open>P\<close> this gives \<^verbatim>\<open>status(P) == status(I)\<close>.
\<close>

theorem cascade_invariant:
  "(acyclic_queue reg rank \<longrightarrow> (\<exists>r. moderate c reg db inst act = Some r))
   \<and> (moderate c reg db inst act = Some (Inr db') \<longrightarrow>
        (\<forall>anc. chain (parent_instance reg db) inst anc \<longrightarrow>
               status_of db' anc = Some (target_status c act))
        \<and> (\<forall>p. parent_instance reg db inst = Some p \<longrightarrow>
               status_of db' p = status_of db' inst))"
proof (intro conjI impI allI)
  assume "acyclic_queue reg rank"
  then show "\<exists>r. moderate c reg db inst act = Some r"
    unfolding moderate_def by (rule transition_returns)
next
  fix anc
  assume "moderate c reg db inst act = Some (Inr db')"
    and "chain (parent_instance reg db) inst anc"
  then show "status_of db' anc = Some (target_status c act)"
    unfolding moderate_def using transition_chain [OF _ refl] by blast
next
  fix p
  assume m: "moderate c reg db inst act = Some (Inr db')"
    and p: "parent_instance reg db inst = Some p"
  have "chain (parent_instance reg db) inst inst"
    by (rule chain_self)
  moreover have "chain (parent_instance reg db) inst p"
    using p by (rule chain_up) (rule chain_self)
  ultimately show "status_of db' p = status_of db' inst"
    using m transition_chain [OF _ refl] unfolding moderate_def by metis
qed

text \<open>
  The e-book of \<^verbatim>\<open>test_3_moderate_parents_from_shell\<close>: approving it returns a store in which
  the e-book and its parent book are both approved.
\<close>

theorem cascade_invariant_witness:
  "acyclic_queue queue0 rank0
   \<and> (\<exists>db'. moderate conf0 queue0 ebook_db (EBook, 1) Approve = Some (Inr db')
          \<and> parent_instance queue0 ebook_db (EBook, 1) = Some (Book, 1)
          \<and> chain (parent_instance queue0 ebook_db) (EBook, 1) (Book, 1)
          \<and> status_of db' (Book, 1) = Some ''AP''
          \<and> status_of db' (Book, 1) = status_of db' (EBook, 1))"
proof -
  let ?db' = "ebook_db((EBook, 1) \<mapsto> \<lparr>pk = 1, status = ''AP'', parent_ptr = Some 1\<rparr>,
                       (Book, 1) \<mapsto> \<lparr>pk = 1, status = ''AP'', parent_ptr = None\<rparr>)"
  have m: "moderate conf0 queue0 ebook_db (EBook, 1) Approve = Some (Inr ?db')"
    by (rule approve_ebook)
  have ch: "chain (parent_instance queue0 ebook_db) (EBook, 1) (Book, 1)"
    using parent_of_ebook by (rule chain_up) (rule chain_self)
  have t: "target_status conf0 Approve = ''AP''"
    by (simp add: target_status_def conf0_def)
  from cascade_invariant [of queue0 rank0 conf0 ebook_db "(EBook, 1)" Approve ?db']
    m ch parent_of_ebook t acyclic_queue0
  have "status_of ?db' (Book, 1) = Some ''AP''"
    and "status_of ?db' (Book, 1) = status_of ?db' (EBook, 1)"
    by auto
  with m ch parent_of_ebook acyclic_queue0 show ?thesis by blast
qed

text \<open>
  C3. For a registered type \<^verbatim>\<open>T\<close>: an instance created by an actor without the permission
  \<^verbatim>\<open>moderate_T\<close> is stored with status \<^verbatim>\<open>PENDING\<close>. For an actor with the permission,
  creation returns on an acyclic registry, returns a store when \<^verbatim>\<open>T\<close> has no cascade
  parent, and whenever it returns a store the instance has status \<^verbatim>\<open>APPROVED\<close> in it.
\<close>

theorem creation_status:
  assumes "model_from_queue reg m = Some config"
  shows "(\<not> actor (mod_perm m) \<longrightarrow>
            (\<exists>db'. create c reg actor db (m, k) parent = Some (Inr db')
                  \<and> status_of db' (m, k) = Some (PENDING_STATUS c)))
       \<and> (actor (mod_perm m) \<longrightarrow>
            (\<forall>db'. create c reg actor db (m, k) parent = Some (Inr db') \<longrightarrow>
                   status_of db' (m, k) = Some (APPROVED_STATUS c))
            \<and> (cascade_parent config = None \<longrightarrow>
                 (\<exists>db'. create c reg actor db (m, k) parent = Some (Inr db')))
            \<and> (acyclic_queue reg rank \<longrightarrow>
                 (\<exists>r. create c reg actor db (m, k) parent = Some r)))"
proof (intro conjI impI allI)
  assume "\<not> actor (mod_perm m)"
  with assms show "\<exists>db'. create c reg actor db (m, k) parent = Some (Inr db')
                        \<and> status_of db' (m, k) = Some (PENDING_STATUS c)"
    by (simp add: create_def Let_def status_of_def)
next
  fix db'
  assume "actor (mod_perm m)" and "create c reg actor db (m, k) parent = Some (Inr db')"
  with assms have
    "transition reg (db((m, k) \<mapsto> \<lparr>pk = k, status = PENDING_STATUS c, parent_ptr = parent\<rparr>))
       (m, k) (APPROVED_STATUS c) = Some (Inr db')"
    by (simp add: create_def Let_def)
  from transition_writes [OF this refl] show "status_of db' (m, k) = Some (APPROVED_STATUS c)"
    by (auto simp: status_of_def)
next
  assume "actor (mod_perm m)" and "cascade_parent config = None"
  with assms show "\<exists>db'. create c reg actor db (m, k) parent = Some (Inr db')"
    by (simp add: create_def Let_def transition_root [where config = config])
next
  assume "actor (mod_perm m)" and "acyclic_queue reg rank"
  with assms transition_returns [of reg rank]
  show "\<exists>r. create c reg actor db (m, k) parent = Some r"
    by (simp add: create_def Let_def)
qed

text \<open>
  The authors of \<^verbatim>\<open>test_2_moderation\<close>: the adder's author is pending, the moderator's
  author is approved.
\<close>

theorem creation_status_witness:
  "model_from_queue queue0 Author = Some \<lparr>can_delete_approved = True, cascade_parent = None\<rparr>
   \<and> acyclic_queue queue0 rank0
   \<and> \<not> adder (mod_perm Author)
   \<and> (\<exists>db'. create conf0 queue0 adder Map.empty (Author, 1) None = Some (Inr db')
          \<and> status_of db' (Author, 1) = Some ''IP'')
   \<and> moderator (mod_perm Author)
   \<and> (\<exists>db'. create conf0 queue0 moderator Map.empty (Author, 3) None = Some (Inr db')
          \<and> status_of db' (Author, 3) = Some ''AP'')"
proof -
  have q: "model_from_queue queue0 Author
             = Some \<lparr>can_delete_approved = True, cascade_parent = None\<rparr>"
    using models_distinct by (simp add: model_from_queue_def queue0_def)
  have mp: "mod_perm Author = ''testapp.moderate_author''"
    by (simp add: mod_perm_def Author_def lower_def lower_char_def)
  have a: "\<not> adder (mod_perm Author)" and mo: "moderator (mod_perm Author)"
    unfolding mp by (simp_all add: adder_def moderator_def)
  have c0: "PENDING_STATUS conf0 = ''IP''" "APPROVED_STATUS conf0 = ''AP''"
    by (simp_all add: conf0_def)
  from creation_status [OF q, of adder conf0 Map.empty 1 None rank0] a c0
  have 1: "\<exists>db'. create conf0 queue0 adder Map.empty (Author, 1) None = Some (Inr db')
                \<and> status_of db' (Author, 1) = Some ''IP''"
    by simp
  from creation_status [OF q, of moderator conf0 Map.empty 3 None rank0] mo c0
  have 2: "\<exists>db'. create conf0 queue0 moderator Map.empty (Author, 3) None = Some (Inr db')
                \<and> status_of db' (Author, 3) = Some ''AP''"
    by auto
  from q a mo 1 2 acyclic_queue0 show ?thesis by blast
qed




end
